theory Spec2Isabelle
  imports Main "HOL-Library.Sublist" "HOL-Library.Char_ord" "HOL-Library.List_Lexorder"
    "HOL-Library.Multiset"
begin

section \<open>Strings and cells\<close>

text \<open>
  A Python \<open>str\<close> is modelled as a \<open>string\<close> holding its UTF-8 bytes. The
  characters the source inspects one by one (\<open><\<close>, \<open>>\<close>, \<open>&\<close>, the newline) are ASCII and
  never occur inside a multi-byte sequence, and comparing the bytes lexicographically
  orders two strings as comparing their code points does.

  A value of a JSON item or of a table cell is a string or the missing marker
  (\<open>None\<close> in a decoded item, \<open>NaN\<close> once it sits in a frame; \<open>pd.isna\<close> holds of both).
\<close>

datatype cell = NaN | Str string

subsection \<open>The pattern \<open><.*?>\<close>\<close>

text \<open>
  \<open>tag_end cs\<close> is the text after the first \<open>>\<close> of \<open>cs\<close>, when no newline comes before it:
  the lazy \<open>.*?\<close> takes the fewest characters, none of them a newline, that a \<open>>\<close> follows.
\<close>

fun tag_end :: "string \<Rightarrow> string option" where
  "tag_end [] = None"
| "tag_end (c # cs) =
     (if c = CHR ''>'' then Some cs
      else if c = CHR 0x0A then None
      else tag_end cs)"

lemma tag_end_shorter: "tag_end cs = Some r \<Longrightarrow> length r < length cs"
  by (induction cs) (auto split: if_splits)

text \<open>\<open>re.sub(clean, '', text)\<close>: every leftmost match is dropped, the scan goes on after it.\<close>

function (sequential) re_sub_clean :: "string \<Rightarrow> string" where
  "re_sub_clean [] = []"
| "re_sub_clean (c # cs) =
     (if c = CHR ''<'' then
        (case tag_end cs of
           Some rest \<Rightarrow> re_sub_clean rest
         | None \<Rightarrow> c # re_sub_clean cs)
      else c # re_sub_clean cs)"
  by pat_completeness auto
termination
  by (relation "measure length") (auto dest: tag_end_shorter)

text \<open>\<open>re.search(clean, text) is not None\<close>: some position starts a match.\<close>

fun re_search_clean :: "string \<Rightarrow> bool" where
  "re_search_clean [] = False"
| "re_search_clean (c # cs) = ((c = CHR ''<'' \<and> tag_end cs \<noteq> None) \<or> re_search_clean cs)"

subsection \<open>\<open>str.replace\<close> and \<open>str.strip\<close>\<close>

fun replace_from :: "string \<Rightarrow> string \<Rightarrow> string \<Rightarrow> string" where
  "replace_from old new [] = []"
| "replace_from old new (c # cs) =
     (if old \<noteq> [] \<and> prefix old (c # cs)
      then new @ replace_from old new (drop (length old) (c # cs))
      else c # replace_from old new cs)"

text \<open>An empty \<open>old\<close> matches between all characters, as in Python.\<close>

definition str_replace :: "string \<Rightarrow> string \<Rightarrow> string \<Rightarrow> string" where
  "str_replace old new s =
     (if old = [] then new @ concat (map (\<lambda>c. c # new) s) else replace_from old new s)"

text \<open>The code points of which \<open>str.isspace\<close> holds, each as its UTF-8 bytes.\<close>

definition whitespace :: "string list" where
  "whitespace =
    [[CHR 0x09], [CHR 0x0A], [CHR 0x0B], [CHR 0x0C], [CHR 0x0D],
     [CHR 0x1C], [CHR 0x1D], [CHR 0x1E], [CHR 0x1F], [CHR 0x20],
     [CHR 0xC2, CHR 0x85],
     [CHR 0xC2, CHR 0xA0],
     [CHR 0xE1, CHR 0x9A, CHR 0x80],
     [CHR 0xE2, CHR 0x80, CHR 0x80],
     [CHR 0xE2, CHR 0x80, CHR 0x81],
     [CHR 0xE2, CHR 0x80, CHR 0x82],
     [CHR 0xE2, CHR 0x80, CHR 0x83],
     [CHR 0xE2, CHR 0x80, CHR 0x84],
     [CHR 0xE2, CHR 0x80, CHR 0x85],
     [CHR 0xE2, CHR 0x80, CHR 0x86],
     [CHR 0xE2, CHR 0x80, CHR 0x87],
     [CHR 0xE2, CHR 0x80, CHR 0x88],
     [CHR 0xE2, CHR 0x80, CHR 0x89],
     [CHR 0xE2, CHR 0x80, CHR 0x8A],
     [CHR 0xE2, CHR 0x80, CHR 0xA8],
     [CHR 0xE2, CHR 0x80, CHR 0xA9],
     [CHR 0xE2, CHR 0x80, CHR 0xAF],
     [CHR 0xE2, CHR 0x81, CHR 0x9F],
     [CHR 0xE3, CHR 0x80, CHR 0x80]]"

text \<open>
  \<open>drop_leading ws s\<close> drops from the front of \<open>s\<close> every leading occurrence of a member
  of \<open>ws\<close>, until none is a prefix.
\<close>

function drop_leading :: "string list \<Rightarrow> string \<Rightarrow> string" where
  "drop_leading ws s =
     (case find (\<lambda>w. w \<noteq> [] \<and> prefix w s) ws of
        None \<Rightarrow> s
      | Some w \<Rightarrow> drop_leading ws (drop (length w) s))"
  by pat_completeness auto
termination
  by (relation "measure (\<lambda>(ws, s). length s)") (auto simp: find_Some_iff prefix_def)

declare drop_leading.simps [simp del]

definition lstrip :: "string \<Rightarrow> string" where
  "lstrip s = drop_leading whitespace s"

definition rstrip :: "string \<Rightarrow> string" where
  "rstrip s = rev (drop_leading (map rev whitespace) (rev s))"

definition strip :: "string \<Rightarrow> string" where
  "strip s = rstrip (lstrip s)"

subsection \<open>\<open>remove_html_tags\<close>\<close>

fun remove_html_tags :: "cell \<Rightarrow> string" where
  "remove_html_tags NaN = []"
| "remove_html_tags (Str text) =
     strip (str_replace ''&gt;'' ''>''
             (str_replace ''&lt;'' ''<''
               (str_replace ''&nbsp;'' '' '' (re_sub_clean text))))"

section \<open>Tables\<close>

text \<open>
  An item of the service's \<open>ITEMS\<close> array is a decoded JSON object: its keys in the
  order they stand, each with its value.
\<close>

type_synonym item = "(string \<times> cell) list"

text \<open>
  A \<open>pandas.DataFrame\<close>: the column labels in order (a label can stand twice after a
  renaming) and the rows, each holding one cell per column.
\<close>

record dataframe =
  columns :: "string list"
  rows :: "cell list list"

datatype exn = RequestError string | KeyError string | NotUnique string

text \<open>\<open>pd.DataFrame()\<close>\<close>

definition empty_frame :: dataframe where
  "empty_frame = \<lparr>columns = [], rows = []\<rparr>"

text \<open>\<open>df.empty\<close>: one of the two axes has length 0.\<close>

definition is_empty :: "dataframe \<Rightarrow> bool" where
  "is_empty df = (columns df = [] \<or> rows df = [])"

definition get_value :: "item \<Rightarrow> string \<Rightarrow> cell" where
  "get_value it k = (case map_of it k of None \<Rightarrow> NaN | Some v \<Rightarrow> v)"

text \<open>The members of a list in the order each is seen first (\<open>Series.unique\<close>, the union of keys).\<close>

definition first_seen :: "'a list \<Rightarrow> 'a list" where
  "first_seen xs = rev (remdups (rev xs))"

text \<open>
  \<open>pd.DataFrame(all_data)\<close> for a list of objects: the columns are the keys in the order
  they appear first, a row has \<open>NaN\<close> where its object lacks the key.
\<close>

definition DataFrame :: "item list \<Rightarrow> dataframe" where
  "DataFrame data =
     (let cols = first_seen (concat (map (map fst) data))
      in \<lparr>columns = cols, rows = map (\<lambda>it. map (get_value it) cols) data\<rparr>)"

definition rename :: "(string \<times> string) list \<Rightarrow> dataframe \<Rightarrow> dataframe" where
  "rename m df =
     df\<lparr>columns := map (\<lambda>c. case map_of m c of None \<Rightarrow> c | Some n \<Rightarrow> n) (columns df)\<rparr>"

text \<open>The cell of row \<open>r\<close> under the first column labelled \<open>name\<close>.\<close>

definition cell_at :: "string list \<Rightarrow> cell list \<Rightarrow> string \<Rightarrow> cell" where
  "cell_at cols r name = (case map_of (zip cols r) name of None \<Rightarrow> NaN | Some v \<Rightarrow> v)"

text \<open>
  \<open>df[name]\<close> used as a \<open>Series\<close>. A label no column has raises \<open>KeyError\<close>. Under a label
  two columns share pandas hands back a frame, on which every call the source goes on
  to make raises (\<open>sort_values(by=name)\<close>: the label is not unique; \<open>.apply(remove_html_tags)\<close>:
  the truth value of a column is ambiguous; \<open>.map(COUNTRY_MAPPING)\<close>: not callable;
  \<open>.unique()\<close>: no such attribute); \<open>NotUnique\<close> stands for these.
\<close>

definition series :: "dataframe \<Rightarrow> string \<Rightarrow> exn + cell list" where
  "series df name =
     (if count_list (columns df) name = 0 then Inl (KeyError name)
      else if count_list (columns df) name = 1
        then Inr (map (\<lambda>r. cell_at (columns df) r name) (rows df))
      else Inl (NotUnique name))"

text \<open>
  \<open>df[name] = values\<close>: the column is overwritten where it stands, or added last.
  \<open>put_cell\<close> is what this does to one row.
\<close>

definition put_cell :: "string list \<Rightarrow> string \<Rightarrow> cell \<Rightarrow> cell list \<Rightarrow> cell list" where
  "put_cell cols name v r =
     (if name \<in> set cols
      then map (\<lambda>(c, old). if c = name then v else old) (zip cols r)
      else r @ [v])"

definition set_column :: "string \<Rightarrow> cell list \<Rightarrow> dataframe \<Rightarrow> dataframe" where
  "set_column name vals df =
     \<lparr>columns = (if name \<in> set (columns df) then columns df else columns df @ [name]),
      rows = map (\<lambda>(r, v). put_cell (columns df) name v r) (zip (rows df) vals)\<rparr>"

fun str_of :: "cell \<Rightarrow> string" where
  "str_of NaN = []"
| "str_of (Str s) = s"

text \<open>
  \<open>df.sort_values(by=name, ascending=False)\<close>, as pandas' \<open>nargsort\<close> computes it: the rows
  with a missing key are set aside, the others are reversed, sorted ascending and
  reversed again, and the rows with a missing key come last. The sort of the model is
  stable; numpy's default \<open>quicksort\<close> leaves the order of rows with equal keys open, and
  nothing below depends on it.
\<close>

definition sort_values_desc :: "dataframe \<Rightarrow> string \<Rightarrow> exn + dataframe" where
  "sort_values_desc df name =
     (if count_list (columns df) name = 0 then Inl (KeyError name)
      else if count_list (columns df) name \<noteq> 1 then Inl (NotUnique name)
      else
        (let key = (\<lambda>r. cell_at (columns df) r name);
             non_nans = filter (\<lambda>r. key r \<noteq> NaN) (rows df);
             nans = filter (\<lambda>r. key r = NaN) (rows df)
         in Inr (df\<lparr>rows := rev (sort_key (\<lambda>r. str_of (key r)) (rev non_nans)) @ nans\<rparr>)))"

text \<open>\<open>Series.map(dict)\<close>: a value that is no key of the dict, and a missing value, give \<open>NaN\<close>.\<close>

definition map_dict :: "(string \<times> string) list \<Rightarrow> cell list \<Rightarrow> cell list" where
  "map_dict d vs =
     map (\<lambda>v. case v of NaN \<Rightarrow> NaN
               | Str s \<Rightarrow> (case map_of d s of None \<Rightarrow> NaN | Some e \<Rightarrow> Str e)) vs"

text \<open>\<open>Series.fillna(other)\<close>, the two series over the same index.\<close>

definition fillna :: "cell list \<Rightarrow> cell list \<Rightarrow> cell list" where
  "fillna vs ws = map (\<lambda>(v, w). if v = NaN then w else v) (zip vs ws)"

text \<open>\<open>df[keep]\<close>, \<open>keep\<close> a boolean series: the rows whose entry of it is true.\<close>

definition select_rows :: "dataframe \<Rightarrow> bool list \<Rightarrow> dataframe" where
  "select_rows df keep = df\<lparr>rows := map fst (filter snd (zip (rows df) keep))\<rparr>"


section \<open>Column labels and the country table\<close>

text \<open>
  The Korean labels as their UTF-8 bytes: \<open>col_title\<close> (product name), \<open>col_country\<close>
  (country), \<open>col_type\<close> (kind of notice), \<open>col_content\<close> (details), \<open>col_registered\<close>
  (date of registration), \<open>col_url\<close> (link to the original).
\<close>

definition col_title :: string where
  "col_title = [CHR 0xEC, CHR 0xA0, CHR 0x9C, CHR 0xED, CHR 0x92, CHR 0x88, CHR 0xEB, CHR 0xAA, CHR 0x85]"

definition col_country :: string where
  "col_country = [CHR 0xEA, CHR 0xB5, CHR 0xAD, CHR 0xEA, CHR 0xB0, CHR 0x80]"

definition col_type :: string where
  "col_type = [CHR 0xEA, CHR 0xB5, CHR 0xAC, CHR 0xEB, CHR 0xB6, CHR 0x84]"

definition col_content :: string where
  "col_content = [CHR 0xEC, CHR 0x83, CHR 0x81, CHR 0xEC, CHR 0x84, CHR 0xB8, CHR 0xEB, CHR 0x82, CHR 0xB4, CHR 0xEC, CHR 0x9A, CHR 0xA9]"

definition col_registered :: string where
  "col_registered = [CHR 0xEB, CHR 0x93, CHR 0xB1, CHR 0xEB, CHR 0xA1, CHR 0x9D, CHR 0xEC, CHR 0x9D, CHR 0xBC]"

definition col_url :: string where
  "col_url = [CHR 0xEC, CHR 0x9B, CHR 0x90, CHR 0xEB, CHR 0xAC, CHR 0xB8, CHR 0xEB, CHR 0xA7, CHR 0x81, CHR 0xED, CHR 0x81, CHR 0xAC]"

text \<open>The dict given to \<open>df.rename(columns=...)\<close>.\<close>

definition renamed_columns :: "(string \<times> string) list" where
  "renamed_columns =
    [(''TITLE'', col_title),
     (''COUNTRY'', col_country),
     (''INFO_TYPE'', col_type),
     (''CONTENT'', col_content),
     (''REGISTRATION_DATE'', col_registered),
     (''ORIGINAL_URL'', col_url)]"

text \<open>
  \<open>COUNTRY_MAPPING\<close>, the keys in the order of the source:
  Jungguk (China), Ilbon (Japan), Miguk (United States), Peurangseu (France), Beteunam (Vietnam), Dogil (Germany), Itallia (Italy), Yeongguk (United Kingdom), Kaenada (Canada), Hoju (Australia), Taeguk (Thailand), Indo (India), Daehanminguk (South Korea), Hanguk (South Korea), Daeman (Taiwan), Seupein (Spain), Reosia (Russia), Beurajil (Brazil), Indonesia (Indonesia), Pillipin (Philippines), Nedeollandeu (Netherlands), Belgie (Belgium), Twireukiye (Turkey), Teoki (Turkey).
\<close>

definition COUNTRY_MAPPING :: "(string \<times> string) list" where
  "COUNTRY_MAPPING =
    [([CHR 0xEC, CHR 0xA4, CHR 0x91, CHR 0xEA, CHR 0xB5, CHR 0xAD], ''China''),
     ([CHR 0xEC, CHR 0x9D, CHR 0xBC, CHR 0xEB, CHR 0xB3, CHR 0xB8], ''Japan''),
     ([CHR 0xEB, CHR 0xAF, CHR 0xB8, CHR 0xEA, CHR 0xB5, CHR 0xAD], ''United States''),
     ([CHR 0xED, CHR 0x94, CHR 0x84, CHR 0xEB, CHR 0x9E, CHR 0x91, CHR 0xEC, CHR 0x8A, CHR 0xA4], ''France''),
     ([CHR 0xEB, CHR 0xB2, CHR 0xA0, CHR 0xED, CHR 0x8A, CHR 0xB8, CHR 0xEB, CHR 0x82, CHR 0xA8], ''Vietnam''),
     ([CHR 0xEB, CHR 0x8F, CHR 0x85, CHR 0xEC, CHR 0x9D, CHR 0xBC], ''Germany''),
     ([CHR 0xEC, CHR 0x9D, CHR 0xB4, CHR 0xED, CHR 0x83, CHR 0x88, CHR 0xEB, CHR 0xA6, CHR 0xAC, CHR 0xEC, CHR 0x95, CHR 0x84], ''Italy''),
     ([CHR 0xEC, CHR 0x98, CHR 0x81, CHR 0xEA, CHR 0xB5, CHR 0xAD], ''United Kingdom''),
     ([CHR 0xEC, CHR 0xBA, CHR 0x90, CHR 0xEB, CHR 0x82, CHR 0x98, CHR 0xEB, CHR 0x8B, CHR 0xA4], ''Canada''),
     ([CHR 0xED, CHR 0x98, CHR 0xB8, CHR 0xEC, CHR 0xA3, CHR 0xBC], ''Australia''),
     ([CHR 0xED, CHR 0x83, CHR 0x9C, CHR 0xEA, CHR 0xB5, CHR 0xAD], ''Thailand''),
     ([CHR 0xEC, CHR 0x9D, CHR 0xB8, CHR 0xEB, CHR 0x8F, CHR 0x84], ''India''),
     ([CHR 0xEB, CHR 0x8C, CHR 0x80, CHR 0xED, CHR 0x95, CHR 0x9C, CHR 0xEB, CHR 0xAF, CHR 0xBC, CHR 0xEA, CHR 0xB5, CHR 0xAD], ''South Korea''),
     ([CHR 0xED, CHR 0x95, CHR 0x9C, CHR 0xEA, CHR 0xB5, CHR 0xAD], ''South Korea''),
     ([CHR 0xEB, CHR 0x8C, CHR 0x80, CHR 0xEB, CHR 0xA7, CHR 0x8C], ''Taiwan''),
     ([CHR 0xEC, CHR 0x8A, CHR 0xA4, CHR 0xED, CHR 0x8E, CHR 0x98, CHR 0xEC, CHR 0x9D, CHR 0xB8], ''Spain''),
     ([CHR 0xEB, CHR 0x9F, CHR 0xAC, CHR 0xEC, CHR 0x8B, CHR 0x9C, CHR 0xEC, CHR 0x95, CHR 0x84], ''Russia''),
     ([CHR 0xEB, CHR 0xB8, CHR 0x8C, CHR 0xEB, CHR 0x9D, CHR 0xBC, CHR 0xEC, CHR 0xA7, CHR 0x88], ''Brazil''),
     ([CHR 0xEC, CHR 0x9D, CHR 0xB8, CHR 0xEB, CHR 0x8F, CHR 0x84, CHR 0xEB, CHR 0x84, CHR 0xA4, CHR 0xEC, CHR 0x8B, CHR 0x9C, CHR 0xEC, CHR 0x95, CHR 0x84], ''Indonesia''),
     ([CHR 0xED, CHR 0x95, CHR 0x84, CHR 0xEB, CHR 0xA6, CHR 0xAC, CHR 0xED, CHR 0x95, CHR 0x80], ''Philippines''),
     ([CHR 0xEB, CHR 0x84, CHR 0xA4, CHR 0xEB, CHR 0x8D, CHR 0x9C, CHR 0xEB, CHR 0x9E, CHR 0x80, CHR 0xEB, CHR 0x93, CHR 0x9C], ''Netherlands''),
     ([CHR 0xEB, CHR 0xB2, CHR 0xA8, CHR 0xEA, CHR 0xB8, CHR 0xB0, CHR 0xEC, CHR 0x97, CHR 0x90], ''Belgium''),
     ([CHR 0xED, CHR 0x8A, CHR 0x80, CHR 0xEB, CHR 0xA5, CHR 0xB4, CHR 0xED, CHR 0x82, CHR 0xA4, CHR 0xEC, CHR 0x98, CHR 0x88], ''Turkey''),
     ([CHR 0xED, CHR 0x84, CHR 0xB0, CHR 0xED, CHR 0x82, CHR 0xA4], ''Turkey'')]"

section \<open>\<open>fetch_food_data\<close>\<close>

record date =
  year :: nat
  month :: nat
  day :: nat

definition digit :: "nat \<Rightarrow> char" where
  "digit n = char_of (48 + n mod 10)"

text \<open>\<open>strftime("%Y%m%d")\<close> of a date whose year has four digits.\<close>

definition strftime_Ymd :: "date \<Rightarrow> string" where
  "strftime_Ymd d =
     [digit (year d div 1000), digit (year d div 100), digit (year d div 10), digit (year d),
      digit (month d div 10), digit (month d),
      digit (day d div 10), digit (day d)]"

text \<open>The query of one call (the key of the service is the same in all of them).\<close>

record params =
  bgnde :: string
  endde :: string
  startIndex :: nat
  endIndex :: nat

text \<open>
  What a call comes to: \<open>requests.get\<close>, \<open>raise_for_status\<close> or \<open>response.json()\<close> raises;
  or the decoded body is no object, an object without \<open>ITEMS\<close>, or one with the list
  \<open>ITEMS\<close> (the empty list stands for every value Python takes as false).
\<close>

datatype response = Raises exn | NotDict | NoItems | Items "item list"

definition batch_size :: nat where
  "batch_size = 100"

record collected =
  all_data :: "item list"
  calls :: "params list"

text \<open>The dict \<open>params\<close> of call \<open>i\<close>.\<close>

definition request :: "string \<Rightarrow> string \<Rightarrow> nat \<Rightarrow> params" where
  "request b e i =
     (let start_index = i * batch_size + 1;
          end_index = (i + 1) * batch_size
      in \<lparr>bgnde = b, endde = e, startIndex = start_index, endIndex = end_index\<rparr>)"

text \<open>
  The loop \<open>for i in range(5)\<close>: the first component of the result is the exception that
  left the loop, if one did; \<open>calls\<close> records the queries sent, in order.
\<close>

fun paginate ::
  "(params \<Rightarrow> response) \<Rightarrow> string \<Rightarrow> string \<Rightarrow> nat list \<Rightarrow> collected
     \<Rightarrow> exn option \<times> collected" where
  "paginate api b e [] st = (None, st)"
| "paginate api b e (i # later) st =
     (let st' = st\<lparr>calls := calls st @ [request b e i]\<rparr>
      in case api (request b e i) of
           Raises ex \<Rightarrow> (Some ex, st')
         | NotDict \<Rightarrow> (None, st')
         | NoItems \<Rightarrow> (None, st')
         | Items its \<Rightarrow>
             if its = [] then (None, st')
             else paginate api b e later (st'\<lparr>all_data := all_data st' @ its\<rparr>))"

text \<open>\<open>df['Country_EN'] = df[col_country].map(COUNTRY_MAPPING).fillna(df[col_country])\<close>\<close>

definition add_country_en :: "dataframe \<Rightarrow> exn + dataframe" where
  "add_country_en df =
     (case series df col_country of
        Inl ex \<Rightarrow> Inl ex
      | Inr s \<Rightarrow> Inr (set_column ''Country_EN'' (fillna (map_dict COUNTRY_MAPPING s) s) df))"

text \<open>The guarded \<open>df[col_content] = df[col_content].apply(remove_html_tags)\<close>\<close>

definition clean_content :: "dataframe \<Rightarrow> exn + dataframe" where
  "clean_content df =
     (if col_content \<in> set (columns df) then
        (case series df col_content of
           Inl ex \<Rightarrow> Inl ex
         | Inr s \<Rightarrow> Inr (set_column col_content (map (\<lambda>v. Str (remove_html_tags v)) s) df))
      else Inr df)"

text \<open>The steps between the loop and \<open>return df\<close>, stopping at the first that raises.\<close>

definition normalize :: "item list \<Rightarrow> exn + dataframe" where
  "normalize data =
     (case sort_values_desc (rename renamed_columns (DataFrame data)) col_registered of
        Inl ex \<Rightarrow> Inl ex
      | Inr sorted_df \<Rightarrow>
          (case clean_content sorted_df of
             Inl ex \<Rightarrow> Inl ex
           | Inr cleaned \<Rightarrow> add_country_en cleaned))"

text \<open>
  What a call of \<open>fetch_food_data\<close> leaves: the frame it returns, the exception shown by
  \<open>st.error\<close> if the handler ran, and the queries it sent.
\<close>

record fetched =
  table :: dataframe
  shown_error :: "exn option"
  requests :: "params list"

definition fetch_food_data :: "(params \<Rightarrow> response) \<Rightarrow> date \<Rightarrow> date \<Rightarrow> fetched" where
  "fetch_food_data api start_date end_date =
     (case paginate api (strftime_Ymd start_date) (strftime_Ymd end_date) [0..<5]
             \<lparr>all_data = [], calls = []\<rparr> of
        (Some ex, st) \<Rightarrow>
          \<lparr>table = (if all_data st \<noteq> [] then DataFrame (all_data st) else empty_frame),
           shown_error = Some ex, requests = calls st\<rparr>
      | (None, st) \<Rightarrow>
          if all_data st = [] then
            \<lparr>table = empty_frame, shown_error = None, requests = calls st\<rparr>
          else
            (case normalize (all_data st) of
               Inr df \<Rightarrow> \<lparr>table = df, shown_error = None, requests = calls st\<rparr>
             | Inl ex \<Rightarrow>
                 \<lparr>table = DataFrame (all_data st), shown_error = Some ex,
                  requests = calls st\<rparr>))"

section \<open>The views\<close>

text \<open>\<open>Series.isin(selection)\<close>; a missing value is in a selection that holds one.\<close>

definition isin :: "cell list \<Rightarrow> cell list \<Rightarrow> bool list" where
  "isin vs selection = map (\<lambda>v. v \<in> set selection) vs"

text \<open>The frame \<open>filtered_df\<close> of the list view.\<close>

definition filtered_df :: "dataframe \<Rightarrow> cell list \<Rightarrow> cell list \<Rightarrow> exn + dataframe" where
  "filtered_df df filter_type filter_country =
     (case series df col_type of
        Inl ex \<Rightarrow> Inl ex
      | Inr ts \<Rightarrow>
          (case series df col_country of
             Inl ex \<Rightarrow> Inl ex
           | Inr cs \<Rightarrow>
               Inr (select_rows df
                      (map (\<lambda>(a, b). a \<and> b) (zip (isin ts filter_type) (isin cs filter_country))))))"




section \<open>Notions for the statements\<close>

text \<open>Every row of a frame holds one cell per column.\<close>

definition well_formed :: "dataframe \<Rightarrow> bool" where
  "well_formed df = (\<forall>r \<in> set (rows df). length r = length (columns df))"

text \<open>
  A column of dates is in descending order, the missing values last; dates compare as
  strings.
\<close>

definition newest_first :: "cell list \<Rightarrow> bool" where
  "newest_first dates = sorted_wrt (\<lambda>a b. b = NaN \<or> (a \<noteq> NaN \<and> str_of b \<le> str_of a)) dates"

text \<open>
  The normalisation seen row by row: what the assignment to the details column and the
  assignment to \<open>Country_EN\<close> do to one row of a frame with the columns \<open>cols\<close>.
\<close>

definition clean_row :: "string list \<Rightarrow> cell list \<Rightarrow> cell list" where
  "clean_row cols r =
     (if col_content \<in> set cols
      then put_cell cols col_content (Str (remove_html_tags (cell_at cols r col_content))) r
      else r)"

fun country_en :: "cell \<Rightarrow> cell" where
  "country_en NaN = NaN"
| "country_en (Str c) = (case map_of COUNTRY_MAPPING c of None \<Rightarrow> Str c | Some e \<Rightarrow> Str e)"

definition country_row :: "string list \<Rightarrow> cell list \<Rightarrow> cell list" where
  "country_row cols r = put_cell cols ''Country_EN'' (country_en (cell_at cols r col_country)) r"

text \<open>The test that leaves the loop: the body decoded is no object, lacks \<open>ITEMS\<close>, or has none.\<close>

fun no_more_data :: "response \<Rightarrow> bool" where
  "no_more_data (Raises ex) = False"
| "no_more_data NotDict = True"
| "no_more_data NoItems = True"
| "no_more_data (Items its) = (its = [])"


text \<open>The label a column has after \<open>df.rename(columns=...)\<close>.\<close>

definition renamed :: "string \<Rightarrow> string" where
  "renamed c = (case map_of renamed_columns c of None \<Rightarrow> c | Some n \<Rightarrow> n)"



section \<open>Example inputs\<close>

text \<open>
  \<open>daehanminguk\<close> is the Korean name of South Korea, a key of \<open>COUNTRY_MAPPING\<close>. The
  service of \<open>one_page\<close> has two notices, the second without details and without a link.
\<close>

definition daehanminguk :: string where
  "daehanminguk = [CHR 0xEB, CHR 0x8C, CHR 0x80, CHR 0xED, CHR 0x95, CHR 0x9C, CHR 0xEB, CHR 0xAF, CHR 0xBC, CHR 0xEA, CHR 0xB5, CHR 0xAD]"

definition kimchi :: item where
  "kimchi =
    [(''TITLE'', Str ''Kimchi''), (''COUNTRY'', Str daehanminguk), (''INFO_TYPE'', Str ''Recall''),
     (''CONTENT'', Str ''<p>Glass&nbsp;found &lt;b&gt;</p>''),
     (''REGISTRATION_DATE'', Str ''20241104''), (''ORIGINAL_URL'', Str ''http://example.com/1'')]"

definition ambrosia :: item where
  "ambrosia =
    [(''TITLE'', Str ''Ambrosia''), (''COUNTRY'', Str ''Atlantis''), (''INFO_TYPE'', Str ''Alert''),
     (''CONTENT'', NaN),
     (''REGISTRATION_DATE'', Str ''20241105''), (''ORIGINAL_URL'', NaN)]"

definition one_page :: "params \<Rightarrow> response" where
  "one_page p = (if startIndex p = 1 then Items [kimchi, ambrosia] else NoItems)"

definition autumn :: date where
  "autumn = \<lparr>year = 2024, month = 10, day = 2\<rparr>"

definition new_year's_eve :: date where
  "new_year's_eve = \<lparr>year = 2024, month = 12, day = 31\<rparr>"

text \<open>
  The first calls are answered with the pages \<open>ps\<close>, in order, none of them empty.
\<close>

definition pages_served :: "(params \<Rightarrow> response) \<Rightarrow> string \<Rightarrow> string \<Rightarrow> item list list \<Rightarrow> bool" where
  "pages_served api b e ps =
     (map (\<lambda>j. api (request b e j)) [0..<length ps] = map Items ps \<and> [] \<notin> set ps)"

text \<open>
  Two services that fail at the second call: after a page of two notices, and after a
  page of a hundred.
\<close>

definition second_call_fails :: "params \<Rightarrow> response" where
  "second_call_fails p =
     (if startIndex p = 1 then Items [kimchi, ambrosia]
      else Raises (RequestError ''503 Server Error''))"

definition hundred_then_error :: "params \<Rightarrow> response" where
  "hundred_then_error p =
     (if startIndex p = 1 then Items (replicate 100 kimchi)
      else Raises (RequestError ''503 Server Error''))"




definition ilbon :: string where
  "ilbon = [CHR 0xEC, CHR 0x9D, CHR 0xBC, CHR 0xEB, CHR 0xB3, CHR 0xB8]"

definition recalls :: dataframe where
  "recalls =
     \<lparr>columns = [col_title, col_country, col_type, col_content, col_registered, col_url,
                 ''Country_EN''],
      rows =
       [[Str ''Natto'', Str ilbon, Str ''Recall'', Str [], Str ''20241108'', NaN, Str ''Japan''],
        [Str ''Miso'', Str ilbon, Str ''Recall'', Str [], Str ''20241107'', NaN, Str ''Japan''],
        [Str ''Ambrosia'', Str ''Atlantis'', Str ''Recall'', Str [], Str ''20241106'', NaN, Str ''Atlantis''],
        [Str ''Tofu'', Str ilbon, Str ''Recall'', Str [], Str ''20241105'', NaN, Str ''Japan''],
        [Str ''Wasabi'', Str ilbon, Str ''Recall'', Str [], Str ''20241104'', NaN, Str ''Japan''],
        [Str ''Sake'', Str ilbon, Str ''Recall'', Str [], Str ''20241103'', NaN, Str ''Japan''],
        [Str ''Mochi'', Str ilbon, Str ''Recall'', Str [], Str ''20241102'', NaN, Str ''Japan''],
        [Str ''Nori'', Str ilbon, Str ''Recall'', Str [], Str ''20241101'', NaN, Str ''Japan'']]\<rparr>"

section \<open>Matches of the pattern\<close>



lemma re_sub_clean_id: "CHR ''<'' \<notin> set s \<Longrightarrow> re_sub_clean s = s"
  by (induction s) auto






lemma tag_end_iff:
  "(tag_end cs \<noteq> None) = (\<exists>w v. cs = w @ CHR ''>'' # v \<and> CHR 0x0A \<notin> set w)"
proof (induction cs)
  case Nil
  then show ?case by simp
next
  case (Cons c cs)
  show ?case
  proof (cases "c = CHR ''>''")
    case True
    then have "c # cs = [] @ CHR ''>'' # cs \<and> CHR 0x0A \<notin> set []" by simp
    then have "\<exists>w v. c # cs = w @ CHR ''>'' # v \<and> CHR 0x0A \<notin> set w" by blast
    with True show ?thesis by simp
  next
    case False
    have "(\<exists>w v. c # cs = w @ CHR ''>'' # v \<and> CHR 0x0A \<notin> set w)
        = (c \<noteq> CHR 0x0A \<and> (\<exists>w v. cs = w @ CHR ''>'' # v \<and> CHR 0x0A \<notin> set w))"
    proof
      assume "\<exists>w v. c # cs = w @ CHR ''>'' # v \<and> CHR 0x0A \<notin> set w"
      then obtain w v where wv: "c # cs = w @ CHR ''>'' # v" "CHR 0x0A \<notin> set w" by blast
      with False obtain w' where "w = c # w'" by (cases w) auto
      with wv show "c \<noteq> CHR 0x0A \<and> (\<exists>w v. cs = w @ CHR ''>'' # v \<and> CHR 0x0A \<notin> set w)"
        by auto
    next
      assume "c \<noteq> CHR 0x0A \<and> (\<exists>w v. cs = w @ CHR ''>'' # v \<and> CHR 0x0A \<notin> set w)"
      then obtain w v where "cs = w @ CHR ''>'' # v" "CHR 0x0A \<notin> set (c # w)" by auto
      then have "c # cs = (c # w) @ CHR ''>'' # v \<and> CHR 0x0A \<notin> set (c # w)" by simp
      then show "\<exists>w v. c # cs = w @ CHR ''>'' # v \<and> CHR 0x0A \<notin> set w" by blast
    qed
    with False Cons show ?thesis by simp
  qed
qed

lemma re_search_clean_iff:
  "re_search_clean s =
     (\<exists>u w v. s = u @ CHR ''<'' # w @ CHR ''>'' # v \<and> CHR 0x0A \<notin> set w)"
proof (induction s)
  case Nil
  then show ?case by simp
next
  case (Cons c cs)
  have "(\<exists>u w v. c # cs = u @ CHR ''<'' # w @ CHR ''>'' # v \<and> CHR 0x0A \<notin> set w)
      = ((c = CHR ''<'' \<and> (\<exists>w v. cs = w @ CHR ''>'' # v \<and> CHR 0x0A \<notin> set w))
         \<or> (\<exists>u w v. cs = u @ CHR ''<'' # w @ CHR ''>'' # v \<and> CHR 0x0A \<notin> set w))"
    by (auto simp: Cons_eq_append_conv) blast+
  with Cons show ?case by (simp only: re_search_clean.simps tag_end_iff)
qed









section \<open>What \<open>remove_html_tags\<close> leaves\<close>

lemma str_replace_nonempty: "old \<noteq> [] \<Longrightarrow> str_replace old new s = replace_from old new s"
  by (simp add: str_replace_def)




lemma replace_from_skip:
  "CHR ''&'' \<notin> set w \<Longrightarrow> replace_from (CHR ''&'' # p) new (w @ s) = w @ replace_from (CHR ''&'' # p) new s"
  by (induction w) auto

lemma drop_leading_none: "find (\<lambda>w. w \<noteq> [] \<and> prefix w s) ws = None \<Longrightarrow> drop_leading ws s = s"
  by (subst drop_leading.simps) simp

lemma strip_angle: "strip (CHR ''<'' # w @ ''>'') = CHR ''<'' # w @ ''>''"
  by (simp add: strip_def lstrip_def rstrip_def drop_leading_none whitespace_def)

lemma escaped_markup:
  assumes "CHR ''&'' \<notin> set w" "CHR ''<'' \<notin> set w"
  shows "remove_html_tags (Str (''&lt;'' @ w @ ''&gt;'')) = ''<'' @ w @ ''>''"
proof -
  have "re_sub_clean (''&lt;'' @ w @ ''&gt;'') = ''&lt;'' @ w @ ''&gt;''"
    using assms by (intro re_sub_clean_id) auto
  moreover have "replace_from ''&nbsp;'' '' '' (''&lt;'' @ w @ ''&gt;'') = ''&lt;'' @ w @ ''&gt;''"
    using assms replace_from_skip[of w "''nbsp;''" "'' ''" "''&gt;''"] by simp
  moreover have "replace_from ''&lt;'' ''<'' (''&lt;'' @ w @ ''&gt;'') = ''<'' @ w @ ''&gt;''"
    using assms replace_from_skip[of w "''lt;''" "''<''" "''&gt;''"] by simp
  moreover have "replace_from ''&gt;'' ''>'' (''<'' @ w @ ''&gt;'') = ''<'' @ w @ ''>''"
    using assms replace_from_skip[of w "''gt;''" "''>''" "''&gt;''"] by simp
  ultimately show ?thesis
    using strip_angle[of w] by (simp add: str_replace_def)
qed

lemma escaped_markup_tag:
  assumes "CHR ''&'' \<notin> set w" "CHR ''<'' \<notin> set w" "CHR 0x0A \<notin> set w"
  shows "re_search_clean (remove_html_tags (Str (''&lt;'' @ w @ ''&gt;'')))"
proof -
  have "''<'' @ w @ ''>'' = [] @ CHR ''<'' # w @ CHR ''>'' # [] \<and> CHR 0x0A \<notin> set w"
    using assms by simp
  then show ?thesis
    unfolding escaped_markup[OF assms(1,2)] re_search_clean_iff by blast
qed

section \<open>Cells and columns\<close>

lemma well_formed_DataFrame: "well_formed (DataFrame data)"
  by (simp add: well_formed_def DataFrame_def Let_def)

lemma well_formed_rename: "well_formed (rename m df) = well_formed df"
  by (simp add: well_formed_def rename_def)

lemma map_of_zip_map_key:
  "length r = length cols \<Longrightarrow>
   map_of (zip cols (map (\<lambda>(c, old). f c old) (zip cols r))) n
     = map_option (f n) (map_of (zip cols r) n)"
  by (induction cols r rule: list_induct2') auto

lemma map_of_zip_in:
  "length r = length cols \<Longrightarrow> n \<in> set cols \<Longrightarrow> \<exists>v. map_of (zip cols r) n = Some v"
  by (induction cols r rule: list_induct2') auto

lemma map_of_zip_notin:
  "n \<notin> set cols \<Longrightarrow> map_of (zip cols r) n = None"
  by (induction cols r rule: list_induct2') auto

lemma cell_at_put_cell:
  assumes "length r = length cols"
  shows "cell_at (if name \<in> set cols then cols else cols @ [name]) (put_cell cols name v r) n
           = (if n = name then v else cell_at cols r n)"
proof (cases "name \<in> set cols")
  case True
  have "map_of (zip cols (map (\<lambda>(c, old). if c = name then v else old) (zip cols r))) n
          = map_option (\<lambda>old. if n = name then v else old) (map_of (zip cols r) n)"
    using map_of_zip_map_key[OF assms, of "\<lambda>c old. if c = name then v else old" n] by simp
  moreover have "\<exists>v. map_of (zip cols r) name = Some v"
    using assms True by (rule map_of_zip_in)
  ultimately show ?thesis
    using True by (auto simp: cell_at_def put_cell_def split: option.splits)
next
  case False
  then show ?thesis
    using assms by (auto simp: cell_at_def put_cell_def map_of_zip_notin split: option.splits)
qed

lemma length_put_cell:
  "length r = length cols \<Longrightarrow>
   length (put_cell cols name v r) = length (if name \<in> set cols then cols else cols @ [name])"
  by (simp add: put_cell_def)

lemma series_Inr:
  "series df n = Inr s \<longleftrightarrow>
     count_list (columns df) n = 1 \<and> s = map (\<lambda>r. cell_at (columns df) r n) (rows df)"
  by (auto simp: series_def)

lemma zip_map_same: "zip xs (map f xs) = map (\<lambda>x. (x, f x)) xs"
  by (induction xs) auto

lemma rows_set_column_map:
  "rows (set_column name (map h (rows df)) df)
     = map (\<lambda>r. put_cell (columns df) name (h r) r) (rows df)"
  by (simp add: set_column_def zip_map_same comp_def)

lemma columns_set_column:
  "columns (set_column name vals df)
     = (if name \<in> set (columns df) then columns df else columns df @ [name])"
  by (simp add: set_column_def)

lemma clean_content_Inr:
  assumes "clean_content df = Inr df'"
  shows "columns df' = columns df" and "rows df' = map (clean_row (columns df)) (rows df)"
    and "count_list (columns df) col_content \<le> 1"
proof -
  show "columns df' = columns df"
    using assms by (auto simp: clean_content_def set_column_def split: if_splits sum.splits)
  show "rows df' = map (clean_row (columns df)) (rows df)"
  proof (cases "col_content \<in> set (columns df)")
    case True
    with assms obtain s where s: "series df col_content = Inr s"
      and df': "df' = set_column col_content (map (\<lambda>v. Str (remove_html_tags v)) s) df"
      by (auto simp: clean_content_def split: sum.splits)
    from s have "s = map (\<lambda>r. cell_at (columns df) r col_content) (rows df)"
      by (simp add: series_Inr)
    then have "map (\<lambda>v. Str (remove_html_tags v)) s
        = map (\<lambda>r. Str (remove_html_tags (cell_at (columns df) r col_content))) (rows df)"
      by simp
    with df' True show ?thesis
      by (simp add: rows_set_column_map clean_row_def)
  next
    case False
    with assms show ?thesis by (simp add: clean_content_def clean_row_def[abs_def])
  qed
  show "count_list (columns df) col_content \<le> 1"
    using assms
    by (auto simp: clean_content_def series_def count_list_0_iff split: if_splits sum.splits)
qed

lemma fillna_map_dict:
  "fillna (map_dict COUNTRY_MAPPING s) s = map country_en s"
proof -
  have "(if (case v of NaN \<Rightarrow> NaN | Str c \<Rightarrow> (case map_of COUNTRY_MAPPING c of None \<Rightarrow> NaN | Some e \<Rightarrow> Str e)) = NaN
         then v
         else (case v of NaN \<Rightarrow> NaN | Str c \<Rightarrow> (case map_of COUNTRY_MAPPING c of None \<Rightarrow> NaN | Some e \<Rightarrow> Str e)))
        = country_en v" for v
    by (cases v) (auto split: option.splits)
  then show ?thesis
    by (simp add: fillna_def map_dict_def zip_map1 zip_same_conv_map)
qed

lemma add_country_en_Inr:
  assumes "add_country_en df = Inr df'"
  shows "columns df' = (if ''Country_EN'' \<in> set (columns df) then columns df
                        else columns df @ [''Country_EN''])"
    and "rows df' = map (country_row (columns df)) (rows df)"
    and "count_list (columns df) col_country = 1"
proof -
  from assms obtain s where s: "series df col_country = Inr s"
    and df': "df' = set_column ''Country_EN'' (fillna (map_dict COUNTRY_MAPPING s) s) df"
    by (auto simp: add_country_en_def split: sum.splits)
  from s show "count_list (columns df) col_country = 1" by (simp add: series_Inr)
  from df' show "columns df' = (if ''Country_EN'' \<in> set (columns df) then columns df
                        else columns df @ [''Country_EN''])"
    by (simp add: columns_set_column)
  from s have "map country_en s = map (\<lambda>r. country_en (cell_at (columns df) r col_country)) (rows df)"
    by (simp add: series_Inr)
  with df' show "rows df' = map (country_row (columns df)) (rows df)"
    by (simp add: fillna_map_dict rows_set_column_map country_row_def)
qed

lemma sort_values_desc_Inr:
  assumes "sort_values_desc df name = Inr df'"
  shows "columns df' = columns df" and "mset (rows df') = mset (rows df)"
    and "count_list (columns df) name = 1"
    and "newest_first (map (\<lambda>r. cell_at (columns df) r name) (rows df'))"
proof -
  let ?key = "\<lambda>r. cell_at (columns df) r name"
  let ?non_nans = "filter (\<lambda>r. ?key r \<noteq> NaN) (rows df)"
  let ?nans = "filter (\<lambda>r. ?key r = NaN) (rows df)"
  let ?sorted = "sort_key (\<lambda>r. str_of (?key r)) (rev ?non_nans)"
  from assms have c: "count_list (columns df) name = 1"
    and df': "df' = df\<lparr>rows := rev ?sorted @ ?nans\<rparr>"
    by (auto simp: sort_values_desc_def Let_def split: if_splits)
  show "count_list (columns df) name = 1" by (rule c)
  show "columns df' = columns df" using df' by simp
  have part: "mset (filter P xs) + mset (filter (\<lambda>x. \<not> P x) xs) = mset xs"
    for P and xs :: "cell list list"
    by (induction xs) auto
  have "mset (rows df') = mset ?non_nans + mset ?nans" using df' by simp
  also have "\<dots> = mset (rows df)"
    using part[of "\<lambda>r. ?key r \<noteq> NaN" "rows df"] by simp
  finally show "mset (rows df') = mset (rows df)" .
  let ?P = "\<lambda>a b. ?key b = NaN \<or> (?key a \<noteq> NaN \<and> str_of (?key b) \<le> str_of (?key a))"
  have 1: "sorted (map (\<lambda>r. str_of (?key r)) ?sorted)" by simp
  have d1: "sorted_wrt (\<lambda>a b. str_of (?key b) \<le> str_of (?key a)) (rev ?sorted)"
    using 1 by (simp add: sorted_wrt_rev sorted_wrt_map)
  have nn: "?key r \<noteq> NaN" if "r \<in> set (rev ?sorted)" for r
    using that by simp
  have 2: "sorted_wrt ?P (rev ?sorted)"
    by (rule sorted_wrt_mono_rel[OF _ d1]) (use nn in blast)
  have nan: "sorted_wrt ?P (filter (\<lambda>r. ?key r = NaN) xs)" for xs
    by (induction xs) auto
  have "sorted_wrt ?P (rev ?sorted @ ?nans)"
    using 2 nan[of "rows df"] by (simp add: sorted_wrt_append)
  then have "newest_first (map ?key (rev ?sorted @ ?nans))"
    unfolding newest_first_def sorted_wrt_map .
  then show "newest_first (map ?key (rows df'))"
    using df' by simp
qed

lemma labels_distinct:
  "col_country \<noteq> col_content" "col_registered \<noteq> col_content" "col_type \<noteq> col_content"
  "col_country \<noteq> ''Country_EN''" "col_registered \<noteq> ''Country_EN''"
  "col_content \<noteq> ''Country_EN''" "col_type \<noteq> ''Country_EN''"
  "col_country \<noteq> col_registered" "col_country \<noteq> col_type"
  by (simp_all add: col_country_def col_content_def col_registered_def col_type_def)

lemma length_clean_row: "length r = length cols \<Longrightarrow> length (clean_row cols r) = length cols"
  by (simp add: clean_row_def put_cell_def)

lemma cell_at_clean_row:
  assumes "length r = length cols"
  shows "cell_at cols (clean_row cols r) n
           = (if n = col_content \<and> col_content \<in> set cols
              then Str (remove_html_tags (cell_at cols r col_content))
              else cell_at cols r n)"
  using cell_at_put_cell[OF assms, of col_content _ n]
  by (auto simp: clean_row_def)

lemma cell_at_country_row:
  assumes "length r = length cols"
  shows "cell_at (if ''Country_EN'' \<in> set cols then cols else cols @ [''Country_EN''])
           (country_row cols r) n
           = (if n = ''Country_EN'' then country_en (cell_at cols r col_country)
              else cell_at cols r n)"
  using cell_at_put_cell[OF assms, of "''Country_EN''" _ n]
  by (simp add: country_row_def)

lemma final_row_cells:
  assumes "length r = length cols"
  defines "cols' \<equiv> (if ''Country_EN'' \<in> set cols then cols else cols @ [''Country_EN''])"
  defines "r' \<equiv> country_row cols (clean_row cols r)"
  shows "cell_at cols' r' ''Country_EN'' = country_en (cell_at cols r col_country)"
    and "cell_at cols' r' col_country = cell_at cols r col_country"
    and "cell_at cols' r' col_registered = cell_at cols r col_registered"
    and "cell_at cols' r' col_type = cell_at cols r col_type"
    and "col_content \<in> set cols \<Longrightarrow>
           cell_at cols' r' col_content = Str (remove_html_tags (cell_at cols r col_content))"
    and "length r' = length cols'"
proof -
  have len: "length (clean_row cols r) = length cols"
    using assms(1) by (rule length_clean_row)
  note cr = cell_at_country_row[OF len, folded cols'_def r'_def]
  note cc = cell_at_clean_row[OF assms(1)]
  show "cell_at cols' r' ''Country_EN'' = country_en (cell_at cols r col_country)"
    by (simp add: cr cc labels_distinct)
  show "cell_at cols' r' col_country = cell_at cols r col_country"
    by (simp add: cr cc labels_distinct)
  show "cell_at cols' r' col_registered = cell_at cols r col_registered"
    by (simp add: cr cc labels_distinct)
  show "cell_at cols' r' col_type = cell_at cols r col_type"
    by (simp add: cr cc labels_distinct)
  show "cell_at cols' r' col_content = Str (remove_html_tags (cell_at cols r col_content))"
    if "col_content \<in> set cols"
    using that by (simp add: cr cc labels_distinct)
  show "length r' = length cols'"
    using length_put_cell[OF len, of "''Country_EN''"]
    by (simp add: r'_def cols'_def country_row_def)
qed

lemma normalize_Inr:
  assumes "normalize data = Inr df"
  defines "cols \<equiv> columns (rename renamed_columns (DataFrame data))"
  shows "\<exists>srows. mset srows = mset (rows (DataFrame data))
           \<and> newest_first (map (\<lambda>r. cell_at cols r col_registered) srows)
           \<and> rows df = map (\<lambda>r. country_row cols (clean_row cols r)) srows
           \<and> columns df = (if ''Country_EN'' \<in> set cols then cols else cols @ [''Country_EN''])
           \<and> count_list cols col_registered = 1
           \<and> count_list cols col_country = 1
           \<and> count_list cols col_content \<le> 1"
proof -
  let ?raw = "rename renamed_columns (DataFrame data)"
  from assms(1) obtain sdf cdf where
    s: "sort_values_desc ?raw col_registered = Inr sdf"
    and c: "clean_content sdf = Inr cdf"
    and a: "add_country_en cdf = Inr df"
    by (auto simp: normalize_def split: sum.splits)
  have rr: "rows ?raw = rows (DataFrame data)" by (simp add: rename_def)
  note S = sort_values_desc_Inr[OF s] and C = clean_content_Inr[OF c] and A = add_country_en_Inr[OF a]
  have "mset (rows sdf) = mset (rows (DataFrame data))" using S(2) rr by simp
  moreover have "newest_first (map (\<lambda>r. cell_at cols r col_registered) (rows sdf))"
    using S(4) by (simp add: cols_def)
  moreover have "rows df = map (\<lambda>r. country_row cols (clean_row cols r)) (rows sdf)"
    using A(2) C(1,2) S(1) by (simp add: cols_def)
  moreover have "columns df = (if ''Country_EN'' \<in> set cols then cols else cols @ [''Country_EN''])"
    using A(1) C(1) S(1) by (simp add: cols_def)
  moreover have "count_list cols col_registered = 1" using S(3) by (simp add: cols_def)
  moreover have "count_list cols col_country = 1" using A(3) C(1) S(1) by (simp add: cols_def)
  moreover have "count_list cols col_content \<le> 1" using C(3) S(1) by (simp add: cols_def)
  ultimately show ?thesis by blast
qed

section \<open>The loop\<close>

lemma paginate_stop:
  "no_more_data (api (request b e x)) \<Longrightarrow>
   paginate api b e (x # xs) st = (None, st\<lparr>calls := calls st @ [request b e x]\<rparr>)"
  by (cases "api (request b e x)") (simp_all add: Let_def)

lemma paginate_raise:
  "api (request b e x) = Raises ex \<Longrightarrow>
   paginate api b e (x # xs) st = (Some ex, st\<lparr>calls := calls st @ [request b e x]\<rparr>)"
  by (simp add: Let_def)

lemma paginate_page:
  "api (request b e x) = Items its \<Longrightarrow> its \<noteq> [] \<Longrightarrow>
   paginate api b e (x # xs) st
     = paginate api b e xs (st\<lparr>calls := calls st @ [request b e x],
                                 all_data := all_data st @ its\<rparr>)"
  by (simp add: Let_def)

lemma paginate_pages:
  "length ps \<le> length xs \<Longrightarrow>
   (\<forall>j<length ps. api (request b e (xs ! j)) = Items (ps ! j) \<and> ps ! j \<noteq> []) \<Longrightarrow>
   paginate api b e xs st
     = paginate api b e (drop (length ps) xs)
         (st\<lparr>calls := calls st @ map (request b e) (take (length ps) xs),
             all_data := all_data st @ concat ps\<rparr>)"
proof (induction ps arbitrary: xs st)
  case Nil
  then show ?case by simp
next
  case (Cons p ps)
  then obtain x xs' where xs: "xs = x # xs'" by (cases xs) auto
  from Cons.prems(2) have p: "api (request b e x) = Items p" "p \<noteq> []"
    using xs by auto
  have rest: "\<forall>j<length ps. api (request b e (xs' ! j)) = Items (ps ! j) \<and> ps ! j \<noteq> []"
    using Cons.prems(2) xs by auto
  have len: "length ps \<le> length xs'" using Cons.prems(1) xs by simp
  show ?case
    unfolding xs paginate_page[where api=api and b=b and e=e and x=x, OF p]
    by (subst Cons.IH[OF len rest]) simp
qed


lemma range5_pages:
  assumes "length ps \<le> 5"
    and "\<forall>j<length ps. api (request b e j) = Items (ps ! j) \<and> ps ! j \<noteq> []"
  shows "paginate api b e [0..<5] \<lparr>all_data = [], calls = []\<rparr>
           = paginate api b e [length ps..<5]
               \<lparr>all_data = concat ps, calls = map (request b e) [0..<length ps]\<rparr>"
proof -
  have "\<forall>j<length ps. api (request b e ([0..<5] ! j)) = Items (ps ! j) \<and> ps ! j \<noteq> []"
    using assms by (auto simp del: upt_Suc)
  from paginate_pages[of ps "[0..<5]" api b e, OF _ this] assms(1)
  show ?thesis
    by (simp add: take_upt del: upt_Suc)
qed

lemma range5_collects:
  assumes "length ps < 5"
    and "\<forall>j<length ps. api (request b e j) = Items (ps ! j) \<and> ps ! j \<noteq> []"
  shows "no_more_data (api (request b e (length ps))) \<Longrightarrow>
         paginate api b e [0..<5] \<lparr>all_data = [], calls = []\<rparr>
           = (None, \<lparr>all_data = concat ps, calls = map (request b e) [0..<Suc (length ps)]\<rparr>)"
    and "api (request b e (length ps)) = Raises ex \<Longrightarrow>
         paginate api b e [0..<5] \<lparr>all_data = [], calls = []\<rparr>
           = (Some ex, \<lparr>all_data = concat ps, calls = map (request b e) [0..<Suc (length ps)]\<rparr>)"
proof -
  have le: "length ps \<le> 5" using assms(1) by simp
  have up: "[length ps..<5] = length ps # [Suc (length ps)..<5]"
    using assms(1) by (simp add: upt_conv_Cons del: upt_Suc)
  show "paginate api b e [0..<5] \<lparr>all_data = [], calls = []\<rparr>
           = (None, \<lparr>all_data = concat ps, calls = map (request b e) [0..<Suc (length ps)]\<rparr>)"
    if "no_more_data (api (request b e (length ps)))"
    unfolding range5_pages[OF le assms(2)] up paginate_stop[where api=api and b=b and e=e and x="length ps", OF that] by simp
  show "paginate api b e [0..<5] \<lparr>all_data = [], calls = []\<rparr>
           = (Some ex, \<lparr>all_data = concat ps, calls = map (request b e) [0..<Suc (length ps)]\<rparr>)"
    if "api (request b e (length ps)) = Raises ex"
    unfolding range5_pages[OF le assms(2)] up paginate_raise[where api=api and b=b and e=e and x="length ps", OF that] by simp
qed

section \<open>The call as a whole\<close>

lemma fetch_no_error:
  assumes "shown_error (fetch_food_data api sd ed) = None"
  shows "table (fetch_food_data api sd ed) = empty_frame
         \<or> (\<exists>data. data \<noteq> [] \<and> normalize data = Inr (table (fetch_food_data api sd ed)))"
  using assms
  by (auto simp: fetch_food_data_def split: prod.splits option.splits if_splits sum.splits)

lemma fetch_row:
  assumes "shown_error (fetch_food_data api sd ed) = None"
    and "r \<in> set (rows (table (fetch_food_data api sd ed)))"
  shows "\<exists>data cols r0.
           cols = columns (rename renamed_columns (DataFrame data))
           \<and> r0 \<in> set (rows (DataFrame data)) \<and> length r0 = length cols
           \<and> r = country_row cols (clean_row cols r0)
           \<and> columns (table (fetch_food_data api sd ed))
               = (if ''Country_EN'' \<in> set cols then cols else cols @ [''Country_EN''])"
proof -
  let ?t = "table (fetch_food_data api sd ed)"
  from assms(2) have "?t \<noteq> empty_frame" by (auto simp: empty_frame_def)
  with fetch_no_error[OF assms(1)] obtain data where n: "normalize data = Inr ?t" by blast
  let ?cols = "columns (rename renamed_columns (DataFrame data))"
  from normalize_Inr[OF n] obtain srows where
    m: "mset srows = mset (rows (DataFrame data))"
    and rw: "rows ?t = map (\<lambda>r. country_row ?cols (clean_row ?cols r)) srows"
    and cl: "columns ?t = (if ''Country_EN'' \<in> set ?cols then ?cols else ?cols @ [''Country_EN''])"
    by blast
  from assms(2) rw obtain r0 where r0: "r0 \<in> set srows" "r = country_row ?cols (clean_row ?cols r0)"
    by auto
  from m have "set srows = set (rows (DataFrame data))" by (rule mset_eq_setD)
  with r0 have in0: "r0 \<in> set (rows (DataFrame data))" by simp
  then have "length r0 = length ?cols"
    using well_formed_DataFrame[of data] by (simp add: well_formed_def rename_def)
  with in0 r0(2) cl show ?thesis by blast
qed

lemma fetch_one_page:
  "fetch_food_data one_page autumn new_year's_eve =
     \<lparr>table =
        \<lparr>columns = [col_title, col_country, col_type, col_content, col_registered, col_url,
                    ''Country_EN''],
         rows =
           [[Str ''Ambrosia'', Str ''Atlantis'', Str ''Alert'', Str [], Str ''20241105'', NaN,
             Str ''Atlantis''],
            [Str ''Kimchi'', Str daehanminguk, Str ''Recall'', Str ''Glass found <b>'',
             Str ''20241104'', Str ''http://example.com/1'', Str ''South Korea'']]\<rparr>,
      shown_error = None,
      requests = [request ''20241002'' ''20241231'' 0, request ''20241002'' ''20241231'' 1]\<rparr>"
  by code_simp

lemma country_values_nonempty: "map_of COUNTRY_MAPPING c = Some e \<Longrightarrow> e \<noteq> []"
  by (drule map_of_SomeD) (auto simp: COUNTRY_MAPPING_def)

lemma country_en_cases:
  "country_en v = (case v of NaN \<Rightarrow> NaN
                   | Str c \<Rightarrow> (case map_of COUNTRY_MAPPING c of None \<Rightarrow> Str c | Some e \<Rightarrow> Str e))"
  by (cases v) simp_all

lemma pages_served_nth:
  assumes "pages_served api b e ps"
  shows "\<forall>j<length ps. api (request b e j) = Items (ps ! j) \<and> ps ! j \<noteq> []"
proof (intro allI impI)
  fix j assume j: "j < length ps"
  from assms have m: "map (\<lambda>j. api (request b e j)) [0..<length ps] = map Items ps"
    and ne: "[] \<notin> set ps"
    by (simp_all add: pages_served_def)
  from j have "map (\<lambda>j. api (request b e j)) [0..<length ps] ! j = api (request b e j)"
    by (simp del: upt_Suc)
  moreover from j have "map Items ps ! j = Items (ps ! j)" by simp
  ultimately have "api (request b e j) = Items (ps ! j)" using m by simp
  moreover from j ne have "ps ! j \<noteq> []" by (metis nth_mem)
  ultimately show "api (request b e j) = Items (ps ! j) \<and> ps ! j \<noteq> []" by simp
qed

lemma DataFrame_Nil: "DataFrame [] = empty_frame"
  by (simp add: DataFrame_def empty_frame_def first_seen_def)

lemma DataFrame_or_empty: "(if data \<noteq> [] then DataFrame data else empty_frame) = DataFrame data"
  by (simp add: DataFrame_Nil)

lemma length_rows_DataFrame: "length (rows (DataFrame data)) = length data"
  by (simp add: DataFrame_def Let_def)

lemma fetch_raises:
  assumes "pages_served api (strftime_Ymd sd) (strftime_Ymd ed) ps"
    and "length ps < 5"
    and "api (request (strftime_Ymd sd) (strftime_Ymd ed) (length ps)) = Raises ex"
  shows "fetch_food_data api sd ed =
           \<lparr>table = DataFrame (concat ps), shown_error = Some ex,
            requests = map (request (strftime_Ymd sd) (strftime_Ymd ed)) [0..<Suc (length ps)]\<rparr>"
  unfolding fetch_food_data_def
    range5_collects(2)[OF assms(2) pages_served_nth[OF assms(1)] assms(3)]
  by (simp add: DataFrame_or_empty del: upt_Suc)

lemma hundred_then_error_served:
  "pages_served hundred_then_error b e [replicate 100 kimchi]"
  "hundred_then_error (request b e (length [replicate 100 kimchi]))
     = Raises (RequestError ''503 Server Error'')"
  by (simp_all add: pages_served_def hundred_then_error_def request_def batch_size_def)

lemma cell_at_map: "k \<in> set cols \<Longrightarrow> cell_at cols (map g cols) k = g k"
proof -
  have "k \<in> set cols \<Longrightarrow> map_of (zip cols (map g cols)) k = Some (g k)"
    by (induction cols) auto
  then show "k \<in> set cols \<Longrightarrow> cell_at cols (map g cols) k = g k"
    by (simp add: cell_at_def)
qed

lemma set_first_seen: "set (first_seen xs) = set xs"
  by (simp add: first_seen_def)


lemma second_call_fails_served:
  "pages_served second_call_fails b e [[kimchi, ambrosia]]"
  "second_call_fails (request b e (length [[kimchi, ambrosia]]))
     = Raises (RequestError ''503 Server Error'')"
  by (simp_all add: pages_served_def second_call_fails_def request_def batch_size_def)

section \<open>Records and rows\<close>

lemma count_list_map_zero: "(\<forall>x\<in>set xs. f x \<noteq> y) \<Longrightarrow> count_list (map f xs) y = 0"
  by (auto simp: count_list_0_iff)

lemma count_list_map_one:
  "distinct xs \<Longrightarrow> a \<in> set xs \<Longrightarrow> f a = y \<Longrightarrow> (\<forall>x\<in>set xs. f x = y \<longrightarrow> x = a)
     \<Longrightarrow> count_list (map f xs) y = 1"
proof (induction xs)
  case Nil
  then show ?case by simp
next
  case (Cons x xs)
  from Cons.prems(1) have d: "distinct xs" and nx: "x \<notin> set xs" by simp_all
  from Cons.prems(4) have u: "\<forall>x'\<in>set xs. f x' = y \<longrightarrow> x' = a" by simp
  show ?case
  proof (cases "x = a")
    case True
    have "f x' \<noteq> y" if "x' \<in> set xs" for x'
      using that u nx True by blast
    then have "count_list (map f xs) y = 0" by (intro count_list_map_zero) blast
    moreover have "f x = y" using True Cons.prems(3) by simp
    ultimately show ?thesis by simp
  next
    case False
    then have "f x \<noteq> y" using Cons.prems(4) by auto
    moreover have "a \<in> set xs" using False Cons.prems(2) by auto
    then have "count_list (map f xs) y = 1" using Cons.IH[OF d _ Cons.prems(3) u] by blast
    ultimately show ?thesis by simp
  qed
qed

lemma count_list_map_le_one:
  assumes "distinct xs" and "\<forall>x\<in>set xs. f x = y \<longrightarrow> x = a"
  shows "count_list (map f xs) y \<le> 1"
proof (cases "a \<in> set xs \<and> f a = y")
  case True
  then show ?thesis using count_list_map_one[OF assms(1) _ _ assms(2)] by simp
next
  case False
  with assms(2) have "\<forall>x\<in>set xs. f x \<noteq> y" by auto
  then have "count_list (map f xs) y = 0" by (rule count_list_map_zero)
  then show ?thesis by simp
qed



lemma labels_apart:
  "col_title \<noteq> col_registered" "col_country \<noteq> col_registered" "col_type \<noteq> col_registered"
  "col_content \<noteq> col_registered" "col_url \<noteq> col_registered"
  "col_title \<noteq> col_country" "col_type \<noteq> col_country" "col_content \<noteq> col_country"
  "col_registered \<noteq> col_country" "col_url \<noteq> col_country"
  "col_title \<noteq> col_content" "col_country \<noteq> col_content" "col_type \<noteq> col_content"
  "col_registered \<noteq> col_content" "col_url \<noteq> col_content"
  by (simp_all add: col_title_def col_country_def col_type_def col_content_def
      col_registered_def col_url_def)

lemma renamed_if:
  "renamed k =
     (if k = ''TITLE'' then col_title
      else if k = ''COUNTRY'' then col_country
      else if k = ''INFO_TYPE'' then col_type
      else if k = ''CONTENT'' then col_content
      else if k = ''REGISTRATION_DATE'' then col_registered
      else if k = ''ORIGINAL_URL'' then col_url
      else k)"
  by (simp add: renamed_def renamed_columns_def)

lemma renamed_to:
  "renamed k = col_registered \<Longrightarrow> k = ''REGISTRATION_DATE'' \<or> k = col_registered"
  "renamed k = col_country \<Longrightarrow> k = ''COUNTRY'' \<or> k = col_country"
  "renamed k = col_content \<Longrightarrow> k = ''CONTENT'' \<or> k = col_content"
  unfolding renamed_if by (simp_all add: labels_apart split: if_splits)












section \<open>Items of the service\<close>



















section \<open>Filtering and the drill-down\<close>

lemma filter_by_zip: "map fst (filter snd (zip xs (map f xs))) = filter f xs"
  by (induction xs) auto

lemma rows_select_rows: "rows (select_rows df (map f (rows df))) = filter f (rows df)"
  by (simp add: select_rows_def filter_by_zip)

lemma columns_select_rows: "columns (select_rows df keep) = columns df"
  by (simp add: select_rows_def)

lemma both_isin:
  "map (\<lambda>(a, b). a \<and> b) (zip (isin (map f xs) s) (isin (map g xs) t))
     = map (\<lambda>x. f x \<in> set s \<and> g x \<in> set t) xs"
  by (induction xs) (auto simp: isin_def)

lemma filtered_df_Inr:
  assumes "filtered_df df ft fc = Inr fdf"
  shows "count_list (columns df) col_type = 1" and "count_list (columns df) col_country = 1"
    and "columns fdf = columns df"
    and "rows fdf = filter (\<lambda>r. cell_at (columns df) r col_type \<in> set ft
                              \<and> cell_at (columns df) r col_country \<in> set fc) (rows df)"
proof -
  from assms obtain ts cs where ts: "series df col_type = Inr ts"
    and cs: "series df col_country = Inr cs"
    and f: "fdf = select_rows df (map (\<lambda>(a, b). a \<and> b) (zip (isin ts ft) (isin cs fc)))"
    by (auto simp: filtered_df_def split: sum.splits)
  from ts show "count_list (columns df) col_type = 1" by (simp add: series_Inr)
  from cs show "count_list (columns df) col_country = 1" by (simp add: series_Inr)
  from f show "columns fdf = columns df" by (simp add: columns_select_rows)
  from ts cs have "ts = map (\<lambda>r. cell_at (columns df) r col_type) (rows df)"
    "cs = map (\<lambda>r. cell_at (columns df) r col_country) (rows df)"
    by (simp_all add: series_Inr)
  with f show "rows fdf = filter (\<lambda>r. cell_at (columns df) r col_type \<in> set ft
                              \<and> cell_at (columns df) r col_country \<in> set fc) (rows df)"
    by (simp add: both_isin rows_select_rows)
qed

lemma filtered_df_again:
  assumes "filtered_df df ft fc = Inr fdf"
  shows "filtered_df fdf ft fc = Inr fdf"
proof -
  note F = filtered_df_Inr[OF assms]
  let ?P = "\<lambda>r. cell_at (columns df) r col_type \<in> set ft
                 \<and> cell_at (columns df) r col_country \<in> set fc"
  have ts: "series fdf col_type = Inr (map (\<lambda>r. cell_at (columns fdf) r col_type) (rows fdf))"
    and cs: "series fdf col_country
               = Inr (map (\<lambda>r. cell_at (columns fdf) r col_country) (rows fdf))"
    using F(1,2,3) by (simp_all add: series_def)
  have "filtered_df fdf ft fc
          = Inr (select_rows fdf (map (\<lambda>r. cell_at (columns fdf) r col_type \<in> set ft
                                           \<and> cell_at (columns fdf) r col_country \<in> set fc)
                                   (rows fdf)))"
    unfolding filtered_df_def ts cs by (simp add: both_isin)
  also have "select_rows fdf (map (\<lambda>r. cell_at (columns fdf) r col_type \<in> set ft
                                           \<and> cell_at (columns fdf) r col_country \<in> set fc)
                                   (rows fdf)) = fdf"
  proof -
    have "rows (select_rows fdf (map ?P (rows fdf))) = filter ?P (rows fdf)"
      by (rule rows_select_rows)
    also have "\<dots> = rows fdf" unfolding F(4) by simp
    finally have "rows (select_rows fdf (map ?P (rows fdf))) = rows fdf" .
    moreover have "select_rows fdf (map ?P (rows fdf))
        = fdf\<lparr>rows := rows (select_rows fdf (map ?P (rows fdf)))\<rparr>"
      by (simp add: select_rows_def)
    ultimately show ?thesis unfolding F(3) by simp
  qed
  finally show ?thesis .
qed

lemma filtered_recalls:
  "filtered_df recalls [Str ''Recall''] [Str ''Atlantis''] =
     Inr \<lparr>columns = [col_title, col_country, col_type, col_content, col_registered, col_url,
                     ''Country_EN''],
          rows = [[Str ''Ambrosia'', Str ''Atlantis'', Str ''Recall'', Str [], Str ''20241106'',
                   NaN, Str ''Atlantis'']]\<rparr>"
  by code_simp





section \<open>The claims\<close>

text \<open>
  Claim C10. \<open>remove_html_tags\<close> unescapes entities after it has removed the tags, so
  escaped markup comes out as a tag: for a text \<open>w\<close> without \<open>&\<close>, \<open><\<close> and newline,
  the input \<open>&lt;w&gt;\<close> gives \<open><w>\<close>, in which the pattern has a match. With
  \<open>w = b\<close>: \<open>remove_html_tags("&lt;b&gt;")\<close> is \<open><b>\<close>.
\<close>

theorem escaped_markup_becomes_tag:
  assumes "CHR ''&'' \<notin> set w" and "CHR ''<'' \<notin> set w" and "CHR 0x0A \<notin> set w"
  shows "remove_html_tags (Str (''&lt;'' @ w @ ''&gt;'')) = ''<'' @ w @ ''>''
         \<and> re_search_clean (remove_html_tags (Str (''&lt;'' @ w @ ''&gt;'')))"
  using assms escaped_markup escaped_markup_tag by blast

theorem escaped_markup_becomes_tag_witness:
  "CHR ''&'' \<notin> set ''b'' \<and> CHR ''<'' \<notin> set ''b'' \<and> CHR 0x0A \<notin> set ''b''
   \<and> remove_html_tags (Str ''&lt;b&gt;'') = ''<b>''
   \<and> re_search_clean (remove_html_tags (Str ''&lt;b&gt;''))"
  using escaped_markup_becomes_tag[of "''b''"] by simp




text \<open>
  Claim C5. In a table fetched without an error, \<open>Country_EN\<close> of a row is the value of
  \<open>COUNTRY_MAPPING\<close> for the row's country where the country is a key, and the country
  itself where it is not; so it is a non-empty string whenever the country is. The
  Korean name of South Korea is a key with the value \<open>South Korea\<close>, \<open>Atlantis\<close> is no key.
\<close>

theorem country_en_from_mapping:
  assumes "shown_error (fetch_food_data api start_date end_date) = None"
    and "r \<in> set (rows (table (fetch_food_data api start_date end_date)))"
  shows "cell_at (columns (table (fetch_food_data api start_date end_date))) r ''Country_EN''
           = (case cell_at (columns (table (fetch_food_data api start_date end_date))) r col_country of
                NaN \<Rightarrow> NaN
              | Str c \<Rightarrow> (case map_of COUNTRY_MAPPING c of None \<Rightarrow> Str c | Some e \<Rightarrow> Str e))
         \<and> (\<forall>c. cell_at (columns (table (fetch_food_data api start_date end_date))) r col_country = Str c
                 \<and> c \<noteq> [] \<longrightarrow>
               (\<exists>e. cell_at (columns (table (fetch_food_data api start_date end_date))) r ''Country_EN''
                      = Str e \<and> e \<noteq> []))
         \<and> map_of COUNTRY_MAPPING daehanminguk = Some ''South Korea''
         \<and> map_of COUNTRY_MAPPING ''Atlantis'' = None"
proof -
  let ?t = "table (fetch_food_data api start_date end_date)"
  from fetch_row[OF assms] obtain data cols r0 where
    len: "length r0 = length cols"
    and r: "r = country_row cols (clean_row cols r0)"
    and cl: "columns ?t = (if ''Country_EN'' \<in> set cols then cols else cols @ [''Country_EN''])"
    by blast
  have en: "cell_at (columns ?t) r ''Country_EN'' = country_en (cell_at cols r0 col_country)"
    using final_row_cells(1)[OF len] by (simp add: r cl)
  have co: "cell_at (columns ?t) r col_country = cell_at cols r0 col_country"
    using final_row_cells(2)[OF len] by (simp add: r cl)
  have 1: "cell_at (columns ?t) r ''Country_EN''
           = (case cell_at (columns ?t) r col_country of
                NaN \<Rightarrow> NaN
              | Str c \<Rightarrow> (case map_of COUNTRY_MAPPING c of None \<Rightarrow> Str c | Some e \<Rightarrow> Str e))"
    unfolding en co by (rule country_en_cases)
  have 2: "\<exists>e. cell_at (columns ?t) r ''Country_EN'' = Str e \<and> e \<noteq> []"
    if "cell_at (columns ?t) r col_country = Str c" "c \<noteq> []" for c
    using that country_values_nonempty[of c] unfolding 1 by (auto split: option.splits)
  have 3: "map_of COUNTRY_MAPPING daehanminguk = Some ''South Korea''" by code_simp
  have 4: "map_of COUNTRY_MAPPING ''Atlantis'' = None" by code_simp
  from 1 2 3 4 show ?thesis by blast
qed

theorem country_en_from_mapping_witness:
  "cell_at (columns (table (fetch_food_data one_page autumn new_year's_eve)))
     [Str ''Kimchi'', Str daehanminguk, Str ''Recall'', Str ''Glass found <b>'',
      Str ''20241104'', Str ''http://example.com/1'', Str ''South Korea''] ''Country_EN''
     = Str ''South Korea''
   \<and> cell_at (columns (table (fetch_food_data one_page autumn new_year's_eve)))
     [Str ''Ambrosia'', Str ''Atlantis'', Str ''Alert'', Str [], Str ''20241105'', NaN,
      Str ''Atlantis''] ''Country_EN''
     = Str ''Atlantis''"
proof -
  let ?k = "[Str ''Kimchi'', Str daehanminguk, Str ''Recall'', Str ''Glass found <b>'',
             Str ''20241104'', Str ''http://example.com/1'', Str ''South Korea'']"
  let ?a = "[Str ''Ambrosia'', Str ''Atlantis'', Str ''Alert'', Str [], Str ''20241105'', NaN,
             Str ''Atlantis'']"
  let ?out = "fetch_food_data one_page autumn new_year's_eve"
  have e: "shown_error ?out = None" unfolding fetch_one_page by simp
  have k: "?k \<in> set (rows (table ?out))" unfolding fetch_one_page by simp
  have a: "?a \<in> set (rows (table ?out))" unfolding fetch_one_page by simp
  have ck: "cell_at (columns (table ?out)) ?k col_country = Str daehanminguk"
    unfolding fetch_one_page by code_simp
  have ca: "cell_at (columns (table ?out)) ?a col_country = Str ''Atlantis''"
    unfolding fetch_one_page by code_simp
  from country_en_from_mapping[OF e k] country_en_from_mapping[OF e a]
  show ?thesis unfolding ck ca by simp
qed

text \<open>
  Claim C3. When the call after the pages \<open>ps\<close> raises, \<open>fetch_food_data\<close> sends no
  further query, shows the exception and returns the frame of exactly the items of
  \<open>ps\<close> (no rows when \<open>ps\<close> is empty); being a value of the function, nothing is raised
  to the caller. When the second call fails after a first page of 100 items, the frame
  has those 100 rows.
\<close>

theorem transport_error_returns_collected:
  assumes "pages_served api (strftime_Ymd start_date) (strftime_Ymd end_date) ps"
    and "length ps < 5"
    and "api (request (strftime_Ymd start_date) (strftime_Ymd end_date) (length ps)) = Raises ex"
  shows "fetch_food_data api start_date end_date =
           \<lparr>table = DataFrame (concat ps), shown_error = Some ex,
            requests = map (request (strftime_Ymd start_date) (strftime_Ymd end_date))
                         [0..<Suc (length ps)]\<rparr>
         \<and> length (rows (table (fetch_food_data api start_date end_date))) = length (concat ps)
         \<and> length (requests (fetch_food_data api start_date end_date)) = Suc (length ps)"
  unfolding fetch_raises[OF assms]
  by (simp add: length_rows_DataFrame del: upt_Suc)

theorem transport_error_returns_collected_witness:
  "table (fetch_food_data hundred_then_error autumn new_year's_eve) = DataFrame (replicate 100 kimchi)
   \<and> length (rows (table (fetch_food_data hundred_then_error autumn new_year's_eve))) = 100
   \<and> shown_error (fetch_food_data hundred_then_error autumn new_year's_eve)
       = Some (RequestError ''503 Server Error'')
   \<and> length (requests (fetch_food_data hundred_then_error autumn new_year's_eve)) = 2"
  using transport_error_returns_collected[OF hundred_then_error_served(1) _ hundred_then_error_served(2),
      of autumn new_year's_eve]
  by (simp add: length_rows_DataFrame)

text \<open>
  Claim C9. When a call raises after at least one page, the frame returned is the raw
  one: its columns are the keys of the items as the service names them, its rows stand
  in the order of arrival, and each cell is the item's own value; no column is renamed
  or added, nothing is sorted or stripped.
\<close>

theorem partial_table_is_raw:
  assumes "pages_served api (strftime_Ymd start_date) (strftime_Ymd end_date) ps"
    and "length ps < 5"
    and "ps \<noteq> []"
    and "api (request (strftime_Ymd start_date) (strftime_Ymd end_date) (length ps)) = Raises ex"
  shows "columns (table (fetch_food_data api start_date end_date))
           = first_seen (concat (map (map fst) (concat ps)))
         \<and> set (columns (table (fetch_food_data api start_date end_date)))
           = (\<Union>it\<in>set (concat ps). fst ` set it)
         \<and> rows (table (fetch_food_data api start_date end_date))
           = map (\<lambda>it. map (get_value it) (columns (table (fetch_food_data api start_date end_date))))
               (concat ps)
         \<and> (\<forall>i<length (concat ps).
              \<forall>k\<in>set (columns (table (fetch_food_data api start_date end_date))).
                cell_at (columns (table (fetch_food_data api start_date end_date)))
                        (rows (table (fetch_food_data api start_date end_date)) ! i) k
                  = get_value (concat ps ! i) k)"
proof -
  let ?T = "table (fetch_food_data api start_date end_date)"
  have T: "?T = DataFrame (concat ps)"
    unfolding fetch_raises[OF assms(1,2,4)] by simp
  have c: "columns ?T = first_seen (concat (map (map fst) (concat ps)))"
    unfolding T by (simp add: DataFrame_def Let_def)
  have s: "set (columns ?T) = (\<Union>it\<in>set (concat ps). fst ` set it)"
    unfolding c set_first_seen by auto
  have r: "rows ?T = map (\<lambda>it. map (get_value it) (columns ?T)) (concat ps)"
    unfolding T by (simp add: DataFrame_def Let_def)
  have "cell_at (columns ?T) (rows ?T ! i) k = get_value (concat ps ! i) k"
    if "i < length (concat ps)" "k \<in> set (columns ?T)" for i k
  proof -
    have "rows ?T ! i = map (get_value (concat ps ! i)) (columns ?T)"
      using that(1) by (subst r) simp
    then show ?thesis using that(2) by (simp add: cell_at_map)
  qed
  with c s r show ?thesis by blast
qed

theorem partial_table_is_raw_witness:
  "columns (table (fetch_food_data second_call_fails autumn new_year's_eve))
     = [''TITLE'', ''COUNTRY'', ''INFO_TYPE'', ''CONTENT'', ''REGISTRATION_DATE'', ''ORIGINAL_URL'']
   \<and> rows (table (fetch_food_data second_call_fails autumn new_year's_eve))
     = [[Str ''Kimchi'', Str daehanminguk, Str ''Recall'',
         Str ''<p>Glass&nbsp;found &lt;b&gt;</p>'', Str ''20241104'', Str ''http://example.com/1''],
        [Str ''Ambrosia'', Str ''Atlantis'', Str ''Alert'', NaN, Str ''20241105'', NaN]]"
proof -
  let ?T = "table (fetch_food_data second_call_fails autumn new_year's_eve)"
  have k: "first_seen (concat (map (map fst) (concat [[kimchi, ambrosia]])))
     = [''TITLE'', ''COUNTRY'', ''INFO_TYPE'', ''CONTENT'', ''REGISTRATION_DATE'', ''ORIGINAL_URL'']"
    by code_simp
  have v: "map (\<lambda>it. map (get_value it)
        [''TITLE'', ''COUNTRY'', ''INFO_TYPE'', ''CONTENT'', ''REGISTRATION_DATE'', ''ORIGINAL_URL''])
        (concat [[kimchi, ambrosia]])
     = [[Str ''Kimchi'', Str daehanminguk, Str ''Recall'',
         Str ''<p>Glass&nbsp;found &lt;b&gt;</p>'', Str ''20241104'', Str ''http://example.com/1''],
        [Str ''Ambrosia'', Str ''Atlantis'', Str ''Alert'', NaN, Str ''20241105'', NaN]]"
    by code_simp
  from partial_table_is_raw[OF second_call_fails_served(1) _ _ second_call_fails_served(2),
      of autumn new_year's_eve]
  have c: "columns ?T = first_seen (concat (map (map fst) (concat [[kimchi, ambrosia]])))"
    and r: "rows ?T = map (\<lambda>it. map (get_value it) (columns ?T)) (concat [[kimchi, ambrosia]])"
    by simp_all
  note c' = c[unfolded k]
  note r' = r[unfolded c' v]
  from c' r' show ?thesis by (rule conjI)
qed

text \<open>
  Claim C1 fails where a call raises: after a first page with the dates 20241104 and
  20241105, in this order, and a failing second call, the frame returned has no column of
  registration dates under its Korean label, and its rows stand oldest first.
\<close>

theorem partial_table_unsorted:
  "fetch_food_data second_call_fails autumn new_year's_eve =
     \<lparr>table =
        \<lparr>columns = [''TITLE'', ''COUNTRY'', ''INFO_TYPE'', ''CONTENT'', ''REGISTRATION_DATE'',
                    ''ORIGINAL_URL''],
         rows =
           [[Str ''Kimchi'', Str daehanminguk, Str ''Recall'',
             Str ''<p>Glass&nbsp;found &lt;b&gt;</p>'', Str ''20241104'',
             Str ''http://example.com/1''],
            [Str ''Ambrosia'', Str ''Atlantis'', Str ''Alert'', NaN, Str ''20241105'', NaN]]\<rparr>,
      shown_error = Some (RequestError ''503 Server Error''),
      requests = [request ''20241002'' ''20241231'' 0, request ''20241002'' ''20241231'' 1]\<rparr>
   \<and> col_registered \<notin> set (columns (table (fetch_food_data second_call_fails autumn new_year's_eve)))
   \<and> \<not> newest_first [Str ''20241104'', Str ''20241105'']"
  by code_simp






text \<open>
  Claim C7. Filtering is idempotent: the frame \<open>filtered_df\<close> holds the rows whose kind of
  notice and whose country are in the two selections, and filtering it again with the
  same selections gives the same frame.
\<close>

theorem filtering_idempotent:
  assumes "filtered_df df filter_type filter_country = Inr fdf"
  shows "filtered_df fdf filter_type filter_country = Inr fdf
         \<and> columns fdf = columns df
         \<and> rows fdf = filter (\<lambda>r. cell_at (columns df) r col_type \<in> set filter_type
                                  \<and> cell_at (columns df) r col_country \<in> set filter_country)
                         (rows df)"
  using filtered_df_again[OF assms] filtered_df_Inr(3,4)[OF assms] by simp

theorem filtering_idempotent_witness:
  "filtered_df
     \<lparr>columns = [col_title, col_country, col_type, col_content, col_registered, col_url,
                 ''Country_EN''],
      rows = [[Str ''Ambrosia'', Str ''Atlantis'', Str ''Recall'', Str [], Str ''20241106'',
               NaN, Str ''Atlantis'']]\<rparr>
     [Str ''Recall''] [Str ''Atlantis'']
   = filtered_df recalls [Str ''Recall''] [Str ''Atlantis'']"
  by (rule trans[OF filtering_idempotent[OF filtered_recalls, THEN conjunct1]
        filtered_recalls[symmetric]])



end
